theory Spec2Isabelle
  imports Complex_Main
begin

section \<open>Python values\<close>

text \<open>
  The server is \<^verbatim>\<open>src/server.py\<close>, a Flask application. A Python \<^verbatim>\<open>str\<close> is modelled by
  the \<open>string\<close> of its UTF-8 bytes: every delimiter the code looks for is an ASCII
  character, and an ASCII byte never occurs inside a multi-byte sequence, so splitting,
  searching and stripping agree with Python's operations on code points. Library
  behaviour is that of CPython 3.11 (\<^verbatim>\<open>urllib/parse.py\<close>).

  An exception is a value of \<open>py_error\<close>; a function that may raise returns
  \<open>py_error + 'a\<close>, with \<open>Inl\<close> for the exception raised.
\<close>

datatype py_error =
    ValueError string
  | TypeError string
  | AttributeError string
  | KeyError string
  | IndexError string
  | HTTPException nat string string  \<comment> \<open>werkzeug: status code, name, description\<close>
  | FetchError string  \<comment> \<open>any exception of the transcript library, with its \<^verbatim>\<open>str()\<close>\<close>

text \<open>The value of \<^verbatim>\<open>request.get_json()\<close>; \<open>JNull\<close> is Python's \<^verbatim>\<open>None\<close>. A \<^verbatim>\<open>dict\<close> is
  an association list read with \<open>map_of\<close>; a \<^verbatim>\<open>float\<close> is approximated by a real.\<close>

datatype json =
    JNull
  | JBool bool
  | JInt int
  | JFloat real
  | JStr string
  | JArr "json list"
  | JObj "(string \<times> json) list"

definition squote :: "string \<Rightarrow> string" where
  "squote s = CHR 0x27 # s @ [CHR 0x27]"

fun digit_char :: "nat \<Rightarrow> char" where
  "digit_char n = char_of (48 + n)"

fun str_nat :: "nat \<Rightarrow> string" where
  "str_nat n = (if n < 10 then [digit_char n] else str_nat (n div 10) @ [digit_char (n mod 10)])"

declare str_nat.simps [simp del]

text \<open>\<^verbatim>\<open>str(e)\<close>. For a werkzeug \<^verbatim>\<open>HTTPException\<close> it is
  \<^verbatim>\<open>f"{code} {name}: {description}"\<close>; for \<^verbatim>\<open>KeyError\<close> the \<^verbatim>\<open>repr\<close> of the key.\<close>

fun str_error :: "py_error \<Rightarrow> string" where
  "str_error (ValueError m) = m"
| "str_error (TypeError m) = m"
| "str_error (AttributeError m) = m"
| "str_error (KeyError k) = squote k"
| "str_error (IndexError m) = m"
| "str_error (HTTPException code name description) =
     str_nat code @ '' '' @ name @ '': '' @ description"
| "str_error (FetchError m) = m"

text \<open>Truth value of an object: \<^verbatim>\<open>None\<close>, \<^verbatim>\<open>False\<close>, zero and the empty containers are false.\<close>

fun truthy :: "json \<Rightarrow> bool" where
  "truthy JNull = False"
| "truthy (JBool b) = b"
| "truthy (JInt i) = (i \<noteq> 0)"
| "truthy (JFloat x) = (x \<noteq> 0)"
| "truthy (JStr s) = (s \<noteq> [])"
| "truthy (JArr xs) = (xs \<noteq> [])"
| "truthy (JObj kvs) = (kvs \<noteq> [])"

fun type_name :: "json \<Rightarrow> string" where
  "type_name JNull = ''NoneType''"
| "type_name (JBool b) = ''bool''"
| "type_name (JInt i) = ''int''"
| "type_name (JFloat x) = ''float''"
| "type_name (JStr s) = ''str''"
| "type_name (JArr xs) = ''list''"
| "type_name (JObj kvs) = ''dict''"

section \<open>String operations\<close>

text \<open>\<^verbatim>\<open>s.startswith(p)\<close> and \<^verbatim>\<open>p in s\<close> (substring test).\<close>

fun startswith :: "string \<Rightarrow> string \<Rightarrow> bool" where
  "startswith s [] = True"
| "startswith [] (p # ps) = False"
| "startswith (c # s) (p # ps) = (c = p \<and> startswith s ps)"

fun py_in :: "string \<Rightarrow> string \<Rightarrow> bool" where
  "py_in p [] = (p = [])"
| "py_in p (c # s) = (startswith (c # s) p \<or> py_in p s)"

text \<open>\<^verbatim>\<open>s.split(sep)\<close> for a one-character separator: never the empty list,
  \<^verbatim>\<open>''.split('/') == ['']\<close>.\<close>

fun py_split :: "char \<Rightarrow> string \<Rightarrow> string list" where
  "py_split sep [] = [[]]"
| "py_split sep (c # s) =
     (if c = sep then [] # py_split sep s
      else (case py_split sep s of [] \<Rightarrow> [[c]] | w # ws \<Rightarrow> (c # w) # ws))"

text \<open>\<^verbatim>\<open>s.partition(sep)\<close> and \<^verbatim>\<open>s.split(sep, 1)\<close> cut at the first separator: the text
  before it, whether it was found, the text after it.\<close>

definition partition_at :: "char \<Rightarrow> string \<Rightarrow> string \<times> bool \<times> string" where
  "partition_at sep s =
     (let front = takeWhile (\<lambda>c. c \<noteq> sep) s; rest = dropWhile (\<lambda>c. c \<noteq> sep) s
      in (front, rest \<noteq> [], drop 1 rest))"

text \<open>\<^verbatim>\<open>s.replace(old, new)\<close> for single characters, \<^verbatim>\<open>s.replace(old, '')\<close>,
  \<^verbatim>\<open>c.isascii()\<close>, an ASCII letter, \<^verbatim>\<open>s.lower()\<close> on ASCII letters.\<close>

definition replace_char :: "char \<Rightarrow> char \<Rightarrow> string \<Rightarrow> string" where
  "replace_char old new s = map (\<lambda>c. if c = old then new else c) s"

definition remove_char :: "char \<Rightarrow> string \<Rightarrow> string" where
  "remove_char old s = filter (\<lambda>c. c \<noteq> old) s"

definition isascii :: "char \<Rightarrow> bool" where
  "isascii c = (\<not> digit7 c)"

definition code :: "char \<Rightarrow> nat" where
  "code c = of_char c"

definition is_upper :: "char \<Rightarrow> bool" where
  "is_upper c = (65 \<le> code c \<and> code c \<le> 90)"

definition is_lower :: "char \<Rightarrow> bool" where
  "is_lower c = (97 \<le> code c \<and> code c \<le> 122)"

definition is_digit :: "char \<Rightarrow> bool" where
  "is_digit c = (48 \<le> code c \<and> code c \<le> 57)"

definition ascii_alpha :: "char \<Rightarrow> bool" where
  "ascii_alpha c = (is_upper c \<or> is_lower c)"

definition lower :: "char \<Rightarrow> char" where
  "lower c = (if is_upper c then char_of (code c + 32) else c)"


section \<open>The URL library (\<^verbatim>\<open>urllib.parse\<close>)\<close>

subsection \<open>Percent-decoding\<close>

definition is_hexdig :: "char \<Rightarrow> bool" where
  "is_hexdig c = (is_digit c \<or> (65 \<le> code c \<and> code c \<le> 70) \<or> (97 \<le> code c \<and> code c \<le> 102))"

definition hexval :: "char \<Rightarrow> nat" where
  "hexval c = (if is_digit c then code c - 48 else if is_upper c then code c - 55 else code c - 87)"

text \<open>One element of \<^verbatim>\<open>bits[1:]\<close> in \<^verbatim>\<open>unquote_to_bytes\<close>: the two characters after a \<^verbatim>\<open>%\<close>
  become one byte when \<^verbatim>\<open>_hextobyte\<close> has them, otherwise the \<^verbatim>\<open>%\<close> is kept.\<close>

definition unquote_item :: "string \<Rightarrow> string" where
  "unquote_item item =
     (case item of
        a # b # rest \<Rightarrow>
          if is_hexdig a \<and> is_hexdig b then char_of (16 * hexval a + hexval b) # rest
          else CHR ''%'' # item
      | _ \<Rightarrow> CHR ''%'' # item)"

definition unquote_to_bytes :: "string \<Rightarrow> string" where
  "unquote_to_bytes s =
     (if s = [] then []
      else (case py_split CHR ''%'' s of
              [] \<Rightarrow> s
            | [b0] \<Rightarrow> s
            | b0 # items \<Rightarrow> b0 @ concat (map unquote_item items)))"

text \<open>\<^verbatim>\<open>bytes.decode('utf-8', 'replace')\<close>, written on the UTF-8 bytes of the result: a
  well-formed sequence is copied, and each error the decoder reports is replaced by U+FFFD.
  The decoder reports an invalid start byte alone, a truncated sequence at the end of the
  input as one error, and an invalid continuation byte as one error covering the bytes
  before it.\<close>

definition replacement :: string where
  "replacement = [CHR 0xEF, CHR 0xBF, CHR 0xBD]"

definition is_cont :: "char \<Rightarrow> bool" where
  "is_cont c = (128 \<le> code c \<and> code c < 192)"

fun decode_utf8_replace :: "string \<Rightarrow> string" where
  "decode_utf8_replace [] = []"
| "decode_utf8_replace (b # bs) =
     (if code b < 0x80 then b # decode_utf8_replace bs
      else if code b < 0xC2 then replacement @ decode_utf8_replace bs
      else if code b < 0xE0 then
        (case bs of
           [] \<Rightarrow> replacement
         | c # cs \<Rightarrow>
             if is_cont c then b # c # decode_utf8_replace cs
             else replacement @ decode_utf8_replace bs)
      else if code b < 0xF0 then
        (case bs of
           [] \<Rightarrow> replacement
         | c # cs \<Rightarrow>
             if \<not> is_cont c \<or> (if code c < 0xA0 then code b = 0xE0 else code b = 0xED)
             then replacement @ decode_utf8_replace bs
             else (case cs of
                     [] \<Rightarrow> replacement
                   | d # ds \<Rightarrow>
                       if is_cont d then b # c # d # decode_utf8_replace ds
                       else replacement @ decode_utf8_replace cs))
      else if code b < 0xF5 then
        (case bs of
           [] \<Rightarrow> replacement
         | c # cs \<Rightarrow>
             if \<not> is_cont c \<or> (if code c < 0x90 then code b = 0xF0 else code b = 0xF4)
             then replacement @ decode_utf8_replace bs
             else (case cs of
                     [] \<Rightarrow> replacement
                   | d # ds \<Rightarrow>
                       if \<not> is_cont d then replacement @ decode_utf8_replace cs
                       else (case ds of
                               [] \<Rightarrow> replacement
                             | e # es \<Rightarrow>
                                 if is_cont e then b # c # d # e # decode_utf8_replace es
                                 else replacement @ decode_utf8_replace ds)))
      else replacement @ decode_utf8_replace bs)"

text \<open>\<^verbatim>\<open>unquote\<close>: the string is cut into runs of ASCII and of other characters
  (\<^verbatim>\<open>_asciire.split\<close>); each ASCII run is percent-decoded and decoded as UTF-8, the other
  runs are kept.\<close>

function unquote_bits :: "string \<Rightarrow> string" where
  "unquote_bits s =
     (if s = [] then []
      else if isascii (hd s) then
        decode_utf8_replace (unquote_to_bytes (takeWhile isascii s))
          @ unquote_bits (dropWhile isascii s)
      else takeWhile (\<lambda>c. \<not> isascii c) s @ unquote_bits (dropWhile (\<lambda>c. \<not> isascii c) s))"
  by pat_completeness auto
termination
proof (relation "measure length")
  show "wf (measure length)" by simp
next
  fix s :: string
  assume "s \<noteq> []" "isascii (hd s)"
  then have "length (dropWhile isascii s) < length s"
    by (cases s) (simp_all add: le_imp_less_Suc length_dropWhile_le)
  then show "(dropWhile isascii s, s) \<in> measure length" by simp
next
  fix s :: string
  assume "s \<noteq> []" "\<not> isascii (hd s)"
  then have "length (dropWhile (\<lambda>c. \<not> isascii c) s) < length s"
    by (cases s) (simp_all add: le_imp_less_Suc length_dropWhile_le)
  then show "(dropWhile (\<lambda>c. \<not> isascii c) s, s) \<in> measure length" by simp
qed

declare unquote_bits.simps [simp del]

definition unquote :: "string \<Rightarrow> string" where
  "unquote s = (if CHR ''%'' \<notin> set s then s else unquote_bits s)"

definition unquote_plus :: "string \<Rightarrow> string" where
  "unquote_plus s = unquote (replace_char CHR ''+'' CHR '' '' s)"

subsection \<open>Query strings\<close>

text \<open>The loop of \<^verbatim>\<open>parse_qsl\<close> over \<^verbatim>\<open>qs.split('&')\<close>, with the defaults
  \<^verbatim>\<open>keep_blank_values=False\<close> and \<^verbatim>\<open>strict_parsing=False\<close>: an empty field is skipped, and so
  is a field whose value is empty.\<close>

fun parse_fields :: "string list \<Rightarrow> (string \<times> string) list" where
  "parse_fields [] = []"
| "parse_fields (name_value # rest) =
     (if name_value \<noteq> [] then
        (case partition_at CHR ''='' name_value of
           (name, has_eq, val) \<Rightarrow>
             if val \<noteq> [] then (unquote_plus name, unquote_plus val) # parse_fields rest
             else parse_fields rest)
      else parse_fields rest)"

definition parse_qsl :: "string \<Rightarrow> (string \<times> string) list" where
  "parse_qsl qs = (if qs = [] then [] else parse_fields (py_split CHR ''&'' qs))"

text \<open>\<^verbatim>\<open>parse_qs\<close> collects the pairs in a dictionary from each name to the list of its
  values, in the order of the query string.\<close>

fun collect_pairs :: "(string \<times> string) list \<Rightarrow> (string \<rightharpoonup> string list) \<Rightarrow> (string \<rightharpoonup> string list)" where
  "collect_pairs [] parsed_result = parsed_result"
| "collect_pairs ((name, val) # pairs) parsed_result =
     collect_pairs pairs
       (case parsed_result name of
          Some vals \<Rightarrow> parsed_result(name \<mapsto> vals @ [val])
        | None \<Rightarrow> parsed_result(name \<mapsto> [val]))"

definition parse_qs :: "string \<Rightarrow> (string \<rightharpoonup> string list)" where
  "parse_qs qs = collect_pairs (parse_qsl qs) Map.empty"

subsection \<open>Splitting a URL\<close>

text \<open>Two library tables are not modelled and are taken as parameters, together with the
  transcript library: \<^verbatim>\<open>unicodedata.normalize('NFKC', s)\<close>, \<^verbatim>\<open>ipaddress.ip_address(s)\<close>
  (which raises or tells an IPv4 from an IPv6 address), and
  \<^verbatim>\<open>YouTubeTranscriptApi.get_transcript(video_id)\<close>.\<close>

datatype ip_version = IPv4 | IPv6

record libs =
  nfkc :: "string \<Rightarrow> string"
  ip_address :: "string \<Rightarrow> py_error + ip_version"
  youtube_get_transcript :: "string \<Rightarrow> py_error + json"

record split_result =
  scheme :: string
  netloc :: string
  path :: string
  query :: string
  fragment :: string

record parse_result = split_result +
  params :: string

definition uses_params :: "string list" where
  "uses_params = [[], ''ftp'', ''hdl'', ''prospero'', ''http'', ''imap'',
                  ''https'', ''shttp'', ''rtsp'', ''rtsps'', ''rtspu'', ''sip'',
                  ''sips'', ''mms'', ''sftp'', ''tel'']"

definition scheme_chars :: "char \<Rightarrow> bool" where
  "scheme_chars c = (is_lower c \<or> is_upper c \<or> is_digit c
                     \<or> c = CHR ''+'' \<or> c = CHR ''-'' \<or> c = CHR ''.'')"

text \<open>\<^verbatim>\<open>url.lstrip(_WHATWG_C0_CONTROL_OR_SPACE)\<close> and the removal of tab, carriage return and
  line feed.\<close>

definition lstrip_c0 :: "string \<Rightarrow> string" where
  "lstrip_c0 url = dropWhile (\<lambda>c. code c \<le> 32) url"

definition remove_unsafe :: "string \<Rightarrow> string" where
  "remove_unsafe url = remove_char (CHR 0x0A) (remove_char (CHR 0x0D) (remove_char (CHR 0x09) url))"

text \<open>The scheme: the text before the first colon, when the colon is not the first
  character, the URL starts with an ASCII letter and every character before the colon is a
  scheme character. Otherwise the scheme is empty and the URL is left whole.\<close>

definition split_scheme :: "string \<Rightarrow> string \<times> string" where
  "split_scheme url =
     (case partition_at CHR '':'' url of
        (front, found, after) \<Rightarrow>
          if found \<and> front \<noteq> [] \<and> isascii (hd url) \<and> ascii_alpha (hd url)
             \<and> list_all scheme_chars front
          then (map lower front, after)
          else ([], url))"

definition netloc_delim :: "char \<Rightarrow> bool" where
  "netloc_delim c = (c = CHR ''/'' \<or> c = CHR ''?'' \<or> c = CHR ''#'')"

definition splitnetloc :: "string \<Rightarrow> string \<times> string" where
  "splitnetloc url =
     (let body = drop 2 url
      in (takeWhile (\<lambda>c. \<not> netloc_delim c) body, dropWhile (\<lambda>c. \<not> netloc_delim c) body))"

text \<open>\<^verbatim>\<open>_check_bracketed_host\<close>: a host starting with \<^verbatim>\<open>v\<close> must match
  \<^verbatim>\<open>\Av[a-fA-F0-9]+\..+\Z\<close>; any other must be an IPv6 address.\<close>

definition ipvfuture_ok :: "string \<Rightarrow> bool" where
  "ipvfuture_ok hostname =
     (let h = takeWhile is_hexdig (drop 1 hostname); t = dropWhile is_hexdig (drop 1 hostname)
      in h \<noteq> [] \<and> startswith t ''.'' \<and> drop 1 t \<noteq> [] \<and> CHR 0x0A \<notin> set (drop 1 t))"

definition check_bracketed_host :: "libs \<Rightarrow> string \<Rightarrow> py_error option" where
  "check_bracketed_host L hostname =
     (if startswith hostname ''v'' then
        (if \<not> ipvfuture_ok hostname then Some (ValueError ''IPvFuture address is invalid'')
         else None)
      else (case ip_address L hostname of
              Inl e \<Rightarrow> Some e
            | Inr IPv4 \<Rightarrow> Some (ValueError ''An IPv4 address cannot be in brackets'')
            | Inr IPv6 \<Rightarrow> None))"

definition bracketed_host :: "string \<Rightarrow> string" where
  "bracketed_host nl =
     (case partition_at CHR ''['' nl of
        (b1, f1, a1) \<Rightarrow> (case partition_at CHR '']'' a1 of (b2, f2, a2) \<Rightarrow> b2))"

text \<open>\<^verbatim>\<open>_checknetloc\<close>: a non-ASCII host is rejected when its NFKC form brings in one of
  the characters \<^verbatim>\<open>/?#@:\<close>.\<close>

definition checknetloc :: "libs \<Rightarrow> string \<Rightarrow> py_error option" where
  "checknetloc L nl =
     (if nl = [] \<or> list_all isascii nl then None
      else
        (let n = remove_char CHR ''?'' (remove_char CHR ''#'' (remove_char CHR '':''
                   (remove_char CHR ''@'' nl)));
             netloc2 = nfkc L n
         in if n = netloc2 then None
            else if list_ex (\<lambda>c. c \<in> set netloc2) ''/?#@:''
            then Some (ValueError (''netloc '' @ squote nl @ '' contains invalid ''
                                   @ ''characters under NFKC normalization''))
            else None))"

text \<open>The end of \<^verbatim>\<open>urlsplit\<close>: fragment and query are cut off, then the host is checked.\<close>

definition split_tail :: "libs \<Rightarrow> string \<Rightarrow> string \<Rightarrow> string \<Rightarrow> py_error + split_result" where
  "split_tail L sch nl url =
     (let (url1, fragment1) =
            (if CHR ''#'' \<in> set url
             then (case partition_at CHR ''#'' url of (b, f, a) \<Rightarrow> (b, a))
             else (url, []));
          (url2, query1) =
            (if CHR ''?'' \<in> set url1
             then (case partition_at CHR ''?'' url1 of (b, f, a) \<Rightarrow> (b, a))
             else (url1, []))
      in (case checknetloc L nl of
            Some e \<Rightarrow> Inl e
          | None \<Rightarrow>
              Inr \<lparr>scheme = sch, netloc = nl, path = url2, query = query1,
                   fragment = fragment1\<rparr>))"

definition urlsplit :: "libs \<Rightarrow> string \<Rightarrow> py_error + split_result" where
  "urlsplit L url0 =
     (let url = remove_unsafe (lstrip_c0 url0);
          (sch, url) = split_scheme url
      in if take 2 url = ''//'' then
           (let (nl, url) = splitnetloc url
            in if (CHR ''['' \<in> set nl \<and> CHR '']'' \<notin> set nl)
                  \<or> (CHR '']'' \<in> set nl \<and> CHR ''['' \<notin> set nl)
               then Inl (ValueError ''Invalid IPv6 URL'')
               else (case (if CHR ''['' \<in> set nl \<and> CHR '']'' \<in> set nl
                           then check_bracketed_host L (bracketed_host nl) else None) of
                       Some e \<Rightarrow> Inl e
                     | None \<Rightarrow> split_tail L sch nl url))
         else split_tail L sch [] url)"

text \<open>\<^verbatim>\<open>_splitparams\<close>: the parameters start at the first semicolon of the last path
  segment.\<close>

definition rfind :: "char \<Rightarrow> string \<Rightarrow> nat" where
  "rfind c s = length s - 1 - length (takeWhile (\<lambda>x. x \<noteq> c) (rev s))"

definition splitparams :: "string \<Rightarrow> string \<times> string" where
  "splitparams url =
     (if CHR ''/'' \<in> set url then
        (let r = rfind CHR ''/'' url; tail = drop r url
         in if CHR '';'' \<in> set tail
            then (take r url @ takeWhile (\<lambda>c. c \<noteq> CHR '';'') tail,
                  drop 1 (dropWhile (\<lambda>c. c \<noteq> CHR '';'') tail))
            else (url, []))
      else (takeWhile (\<lambda>c. c \<noteq> CHR '';'') url, drop 1 (dropWhile (\<lambda>c. c \<noteq> CHR '';'') url)))"

definition urlparse :: "libs \<Rightarrow> string \<Rightarrow> py_error + parse_result" where
  "urlparse L url =
     (case urlsplit L url of
        Inl e \<Rightarrow> Inl e
      | Inr sr \<Rightarrow>
          if List.member uses_params (scheme sr) \<and> CHR '';'' \<in> set (path sr)
          then (case splitparams (path sr) of
                  (url1, params1) \<Rightarrow>
                    Inr \<lparr>scheme = scheme sr, netloc = netloc sr, path = url1,
                         query = query sr, fragment = fragment sr, params = params1\<rparr>)
          else Inr \<lparr>scheme = scheme sr, netloc = netloc sr, path = path sr,
                    query = query sr, fragment = fragment sr, params = []\<rparr>)"

section \<open>The server\<close>

subsection \<open>Responses\<close>

text \<open>A Flask response: status code, body and headers. \<^verbatim>\<open>jsonify(x)\<close> is a 200 response with
  a JSON body; \<^verbatim>\<open>return r, code\<close> sets the status; \<^verbatim>\<open>response.headers[k] = v\<close> replaces
  the header \<open>k\<close>.\<close>

datatype payload = Json json | Text string

record response =
  status :: nat
  body :: payload
  headers :: "string \<rightharpoonup> string"

definition jsonify :: "json \<Rightarrow> response" where
  "jsonify x = \<lparr>status = 200, body = Json x,
                 headers = [''Content-Type'' \<mapsto> ''application/json'']\<rparr>"

definition with_status :: "response \<Rightarrow> nat \<Rightarrow> response" where
  "with_status r c = r\<lparr>status := c\<rparr>"

definition add_security_headers :: "response \<Rightarrow> response" where
  "add_security_headers response =
     response\<lparr>headers := (headers response)
       (''X-Content-Type-Options'' \<mapsto> ''nosniff'',
        ''X-Frame-Options'' \<mapsto> ''DENY'',
        ''X-XSS-Protection'' \<mapsto> ''1; mode=block'',
        ''Strict-Transport-Security'' \<mapsto> ''max-age=31536000; includeSubDomains'')\<rparr>"

definition handle_error :: "py_error \<Rightarrow> response" where
  "handle_error error =
     with_status (jsonify (JObj [(''error'', JStr (str_error error)),
                                 (''status'', JStr ''error'')])) 500"

subsection \<open>The views\<close>

definition home :: response where
  "home = jsonify (JObj [(''status'', JStr ''Server is running''),
                         (''endpoints'', JObj [(''transcript'', JStr ''/api/transcript''),
                                               (''health'', JStr ''/health'')]),
                         (''version'', JStr ''1.0.0'')])"

text \<open>\<open>now\<close> is \<^verbatim>\<open>time.time()\<close>, \<open>env\<close> is \<^verbatim>\<open>os.environ.get('ENVIRONMENT')\<close>.\<close>

definition health :: "real \<Rightarrow> string option \<Rightarrow> response" where
  "health now env =
     jsonify (JObj [(''status'', JStr ''healthy''),
                    (''timestamp'', JFloat now),
                    (''environment'', JStr (case env of None \<Rightarrow> ''development'' | Some e \<Rightarrow> e)),
                    (''service'', JStr ''youtube-transcript-api'')])"

definition favicon :: response where
  "favicon = \<lparr>status = 204, body = Text [],
               headers = [''Content-Type'' \<mapsto> ''text/html; charset=utf-8'']\<rparr>"

text \<open>\<^verbatim>\<open>xs[0]\<close> and \<^verbatim>\<open>xs[-1]\<close> raise on the empty list.\<close>

definition index_first :: "'a list \<Rightarrow> py_error + 'a" where
  "index_first xs = (case xs of [] \<Rightarrow> Inl (IndexError ''list index out of range'') | x # _ \<Rightarrow> Inr x)"

definition index_last :: "'a list \<Rightarrow> py_error + 'a" where
  "index_last xs = (if xs = [] then Inl (IndexError ''list index out of range'') else Inr (last xs))"

text \<open>Lines 75 to 83 of \<^verbatim>\<open>get_video_transcript\<close>, on a \<^verbatim>\<open>str\<close>: the video identifier, or the
  exception raised before the transcript library is called. \<open>video_id\<close> is \<open>None\<close> for
  Python's \<^verbatim>\<open>None\<close>; \<^verbatim>\<open>not video_id\<close> holds for \<^verbatim>\<open>None\<close> and for the empty string.\<close>

definition resolve :: "libs \<Rightarrow> string \<Rightarrow> py_error + string" where
  "resolve L url =
     (case urlparse L url of
        Inl e \<Rightarrow> Inl e
      | Inr parsed_url \<Rightarrow>
          (case (if py_in ''youtube.com'' (netloc parsed_url) then
                   (let query_params = parse_qs (query parsed_url)
                    in index_first (case query_params ''v'' of
                                      None \<Rightarrow> [None]
                                    | Some vals \<Rightarrow> map Some vals))
                 else index_last (map Some (py_split CHR ''/'' (path parsed_url)))) of
             Inl e \<Rightarrow> Inl e
           | Inr video_id \<Rightarrow>
               (case video_id of
                  None \<Rightarrow> Inl (ValueError ''Invalid YouTube URL'')
                | Some v \<Rightarrow> if v = [] then Inl (ValueError ''Invalid YouTube URL'') else Inr v)))"

text \<open>\<^verbatim>\<open>urlparse\<close> on an argument that is not a \<^verbatim>\<open>str\<close>: an object that is true has no
  \<^verbatim>\<open>decode\<close>; one that is false is read as the empty byte string, and
  \<^verbatim>\<open>'youtube.com' in parsed_url.netloc\<close> then fails on bytes.\<close>

definition resolve_non_str :: "json \<Rightarrow> py_error" where
  "resolve_non_str url =
     (if truthy url
      then AttributeError (squote (type_name url) @ '' object has no attribute '' @ squote ''decode'')
      else TypeError (''a bytes-like object is required, not '' @ squote ''str''))"

text \<open>Lines 75 to 83 on any object: \<^verbatim>\<open>url\<close> is whatever the request body holds.\<close>

definition resolve_value :: "libs \<Rightarrow> json \<Rightarrow> py_error + string" where
  "resolve_value L url = (case url of JStr s \<Rightarrow> resolve L s | _ \<Rightarrow> Inl (resolve_non_str url))"

text \<open>\<^verbatim>\<open>get_video_transcript(url)\<close>: its result, and the identifiers it passed to the transcript
  library. The \<^verbatim>\<open>except\<close> clause writes to the log and raises the exception again, so the
  exception is the one of the body; the log is not modelled.\<close>

definition get_video_transcript :: "libs \<Rightarrow> json \<Rightarrow> (py_error + json) \<times> string list" where
  "get_video_transcript L url =
     (case resolve_value L url of
        Inl e \<Rightarrow> (Inl e, [])
      | Inr video_id \<Rightarrow> (youtube_get_transcript L video_id, [video_id]))"

text \<open>\<^verbatim>\<open>'url' in data\<close> and \<^verbatim>\<open>data['url']\<close> on each type of \<open>data\<close>.\<close>

definition contains_key :: "string \<Rightarrow> json \<Rightarrow> py_error + bool" where
  "contains_key k data =
     (case data of
        JObj kvs \<Rightarrow> Inr (map_of kvs k \<noteq> None)
      | JStr s \<Rightarrow> Inr (py_in k s)
      | JArr xs \<Rightarrow> Inr (JStr k \<in> set xs)
      | _ \<Rightarrow> Inl (TypeError (''argument of type '' @ squote (type_name data) @ '' is not iterable'')))"

definition getitem :: "json \<Rightarrow> string \<Rightarrow> py_error + json" where
  "getitem data k =
     (case data of
        JObj kvs \<Rightarrow> (case map_of kvs k of None \<Rightarrow> Inl (KeyError k) | Some v \<Rightarrow> Inr v)
      | JStr s \<Rightarrow> Inl (TypeError (''string indices must be integers, not '' @ squote ''str''))
      | JArr xs \<Rightarrow> Inl (TypeError ''list indices must be integers or slices, not str'')
      | _ \<Rightarrow> Inl (TypeError (squote (type_name data) @ '' object is not subscriptable'')))"

definition error_500 :: "py_error \<Rightarrow> response" where
  "error_500 e = with_status (jsonify (JObj [(''error'', JStr (str_error e))])) 500"

text \<open>The view \<^verbatim>\<open>get_transcript\<close>. \<open>got\<close> is the outcome of \<^verbatim>\<open>request.get_json()\<close>: the
  object it returns or the exception it raises. Every exception raised in the \<^verbatim>\<open>try\<close> block
  is turned into a 500 response by the \<^verbatim>\<open>except\<close> clause.\<close>

definition get_transcript :: "libs \<Rightarrow> py_error + json \<Rightarrow> response \<times> string list" where
  "get_transcript L got =
     (case got of
        Inl e \<Rightarrow> (error_500 e, [])
      | Inr data \<Rightarrow>
          (case (if \<not> truthy data then Inr True
                 else (case contains_key ''url'' data of Inl e \<Rightarrow> Inl e | Inr b \<Rightarrow> Inr (\<not> b))) of
             Inl e \<Rightarrow> (error_500 e, [])
           | Inr True \<Rightarrow> (with_status (jsonify (JObj [(''error'', JStr ''URL is required'')])) 400, [])
           | Inr False \<Rightarrow>
               (case getitem data ''url'' of
                  Inl e \<Rightarrow> (error_500 e, [])
                | Inr url \<Rightarrow>
                    (case get_video_transcript L url of
                       (Inl e, calls) \<Rightarrow> (error_500 e, calls)
                     | (Inr transcript, calls) \<Rightarrow>
                         (jsonify (JObj [(''transcript'', transcript)]), calls)))))"

subsection \<open>Dispatch\<close>

text \<open>What Flask and its extensions hand to the application for one request.

  Routing gives the view the URL map matched, a redirect to the canonical URL
  (\<^verbatim>\<open>RequestRedirect\<close>, with the response werkzeug builds for it), or the exception raised
  for a URL or method without a view (404, 405). \<open>Builtin r\<close> is a response Flask produces
  itself (automatic \<^verbatim>\<open>OPTIONS\<close>, static files).

  The verdict of the rate limiter is \<open>Some d\<close> when the limit described by \<open>d\<close> is
  exceeded.

  \<^verbatim>\<open>request.get_json()\<close> returns the object of the body, \<^verbatim>\<open>None\<close> for the body \<^verbatim>\<open>null\<close>,
  and raises when the request carries no JSON: \<^verbatim>\<open>UnsupportedMediaType\<close> (415) when the
  content type is not JSON, as for a request without a body, and \<^verbatim>\<open>BadRequest\<close> (400) when
  the body does not parse.\<close>

datatype endpoint = Home | Health | Get_transcript | Favicon | Builtin response

datatype routing = Matched endpoint | Redirected response | Routing_error py_error

record request =
  matched :: routing
  limit_breached :: "string option"
  get_json :: "py_error + json"
  time_now :: real
  environment :: "string option"

definition view :: "libs \<Rightarrow> request \<Rightarrow> endpoint \<Rightarrow> response \<times> string list" where
  "view L req ep =
     (case ep of
        Home \<Rightarrow> (home, [])
      | Health \<Rightarrow> (health (time_now req) (environment req), [])
      | Get_transcript \<Rightarrow> get_transcript L (get_json req)
      | Favicon \<Rightarrow> (favicon, [])
      | Builtin r \<Rightarrow> (r, []))"

text \<open>The limiter raises \<^verbatim>\<open>RateLimitExceeded\<close>, a werkzeug \<^verbatim>\<open>TooManyRequests\<close> (code 429) whose
  description is the limit. \<^verbatim>\<open>get_json\<close> on a request without a JSON content type raises
  \<^verbatim>\<open>UnsupportedMediaType\<close> (code 415).\<close>

definition RateLimitExceeded :: "string \<Rightarrow> py_error" where
  "RateLimitExceeded d = HTTPException 429 ''Too Many Requests'' d"

definition UnsupportedMediaType :: py_error where
  "UnsupportedMediaType =
     HTTPException 415 ''Unsupported Media Type''
       (''Did not attempt to load JSON data because the request Content-Type was not ''
        @ squote ''application/json'' @ ''.'')"

text \<open>One request through the application. A routing redirect is the response as it is:
  Flask calls no error handler for it. Any other exception raised by routing, by the
  limiter or by a view goes to the error handler registered for its class; the only
  handler registered is \<open>handle_error\<close>, for \<^verbatim>\<open>Exception\<close>, the base of every class above.
  The \<^verbatim>\<open>after_request\<close> function \<open>add_security_headers\<close> is applied to the response,
  whichever way it was made. The headers that the CORS and limiter extensions add are not
  modelled.\<close>

definition serve :: "libs \<Rightarrow> request \<Rightarrow> response \<times> string list" where
  "serve L req =
     (case (case matched req of
              Routing_error e \<Rightarrow> (handle_error e, [])
            | Redirected r \<Rightarrow> (r, [])
            | Matched ep \<Rightarrow>
                (case limit_breached req of
                   Some d \<Rightarrow> (handle_error (RateLimitExceeded d), [])
                 | None \<Rightarrow> view L req ep)) of
        (r, calls) \<Rightarrow> (add_security_headers r, calls))"

section \<open>Notions of the specification\<close>

text \<open>The final path segment: the text after the last \<^verbatim>\<open>/\<close>, the whole path when it has
  none.\<close>

definition final_segment :: "string \<Rightarrow> string" where
  "final_segment p = rev (takeWhile (\<lambda>c. c \<noteq> CHR ''/'') (rev p))"



text \<open>The parameters of a query string: one for each non-empty field between \<^verbatim>\<open>&\<close>, with
  its name and its value decoded; a field without \<^verbatim>\<open>=\<close> has the empty value.
  \<open>occurrences name q\<close> lists the values of the parameter \<open>name\<close>, in the order of \<open>q\<close>.\<close>

definition decode_field :: "string \<Rightarrow> string \<times> string" where
  "decode_field field =
     (case partition_at CHR ''='' field of
        (name, has_eq, val) \<Rightarrow> (unquote_plus name, unquote_plus val))"

definition query_parameters :: "string \<Rightarrow> (string \<times> string) list" where
  "query_parameters q =
     map decode_field (filter (\<lambda>field. field \<noteq> []) (py_split CHR ''&'' q))"

definition occurrences :: "string \<Rightarrow> string \<Rightarrow> string list" where
  "occurrences name q = map snd (filter (\<lambda>nv. fst nv = name) (query_parameters q))"

text \<open>The characters of a video identifier as YouTube writes them: letters, digits, \<^verbatim>\<open>-\<close>
  and \<^verbatim>\<open>_\<close>.\<close>

definition id_char :: "char \<Rightarrow> bool" where
  "id_char c = (is_lower c \<or> is_upper c \<or> is_digit c \<or> c = CHR ''-'' \<or> c = CHR ''_'')"

text \<open>Library parameters for closed examples.\<close>

definition nfkc_unchanged :: "string \<Rightarrow> string" where
  "nfkc_unchanged s = s"

definition ip_address_rejects :: "string \<Rightarrow> py_error + ip_version" where
  "ip_address_rejects s =
     Inl (ValueError (squote s @ '' does not appear to be an IPv4 or IPv6 address''))"

definition transcripts_disabled :: "string \<Rightarrow> py_error + json" where
  "transcripts_disabled video_id = Inl (FetchError (''Could not retrieve a transcript for '' @ video_id))"

definition example_libs :: libs where
  "example_libs = \<lparr>nfkc = nfkc_unchanged, ip_address = ip_address_rejects,
                    youtube_get_transcript = transcripts_disabled\<rparr>"

section \<open>Properties of the library model\<close>

lemma py_split_not_Nil: "py_split c s \<noteq> []"
  by (induction s) (auto split: list.splits)

lemma py_split_single: "c \<notin> set s \<Longrightarrow> py_split c s = [s]"
  by (induction s) auto

lemma py_split_many: "c \<in> set s \<Longrightarrow> \<exists>w v ws. py_split c s = w # v # ws"
proof (induction s)
  case Nil
  then show ?case by simp
next
  case (Cons x s)
  show ?case
  proof (cases "c \<in> set s")
    case True
    with Cons.IH obtain w v ws where "py_split c s = w # v # ws" by blast
    then show ?thesis by auto
  next
    case False
    with Cons.prems have "x = c" by simp
    moreover from False have "py_split c s = [s]" by (rule py_split_single)
    ultimately show ?thesis by simp
  qed
qed

lemma final_segment_Cons:
  "final_segment (x # s) =
     (if CHR ''/'' \<in> set s then final_segment s else if x = CHR ''/'' then s else x # s)"
proof (cases "CHR ''/'' \<in> set s")
  case True
  then have "takeWhile (\<lambda>c. c \<noteq> CHR ''/'') (rev s @ [x]) = takeWhile (\<lambda>c. c \<noteq> CHR ''/'') (rev s)"
    by (intro takeWhile_append1[of "CHR ''/''"]) simp_all
  then show ?thesis
    using True by (simp add: final_segment_def)
next
  case False
  then have all: "\<forall>c\<in>set (rev s). c \<noteq> CHR ''/''" by auto
  then have "takeWhile (\<lambda>c. c \<noteq> CHR ''/'') (rev s) = rev s" by (simp add: takeWhile_eq_all_conv)
  then show ?thesis
    using False all by (simp add: final_segment_def takeWhile_append)
qed

lemma last_py_split: "last (py_split CHR ''/'' s) = final_segment s"
proof (induction s)
  case Nil
  show ?case by (simp add: final_segment_def)
next
  case (Cons x s)
  show ?case
  proof (cases "CHR ''/'' \<in> set s")
    case True
    then obtain w v ws where sp: "py_split CHR ''/'' s = w # v # ws"
      using py_split_many by blast
    then show ?thesis
      using Cons.IH True by (simp add: final_segment_Cons)
  next
    case False
    then have "py_split CHR ''/'' s = [s]" by (rule py_split_single)
    then show ?thesis
      using False by (simp add: final_segment_Cons)
  qed
qed

lemma decode_utf8_replace_Nil_iff: "decode_utf8_replace bs = [] \<longleftrightarrow> bs = []"
  by (cases bs) (simp_all add: replacement_def split: list.splits)

lemma unquote_item_not_Nil: "unquote_item item \<noteq> []"
  by (simp add: unquote_item_def split: list.splits)

lemma unquote_to_bytes_Nil_iff: "unquote_to_bytes s = [] \<longleftrightarrow> s = []"
  by (auto simp: unquote_to_bytes_def unquote_item_not_Nil split: list.splits)

lemma unquote_bits_Nil_iff: "unquote_bits s = [] \<longleftrightarrow> s = []"
proof (cases s)
  case Nil
  then show ?thesis by (simp add: unquote_bits.simps)
next
  case (Cons c cs)
  then show ?thesis
    by (subst unquote_bits.simps)
       (simp add: decode_utf8_replace_Nil_iff unquote_to_bytes_Nil_iff)
qed

lemma unquote_Nil_iff: "unquote s = [] \<longleftrightarrow> s = []"
  by (simp add: unquote_def unquote_bits_Nil_iff)

lemma unquote_plus_Nil_iff: "unquote_plus s = [] \<longleftrightarrow> s = []"
  by (simp add: unquote_plus_def unquote_Nil_iff replace_char_def)

lemma unquote_plus_plain:
  "CHR ''%'' \<notin> set s \<Longrightarrow> CHR ''+'' \<notin> set s \<Longrightarrow> unquote_plus s = s"
proof -
  assume a: "CHR ''%'' \<notin> set s" and b: "CHR ''+'' \<notin> set s"
  from b have "replace_char CHR ''+'' CHR '' '' s = s"
    unfolding replace_char_def by (intro map_idI) auto
  with a show ?thesis by (simp add: unquote_plus_def unquote_def)
qed

lemma parse_fields_filter:
  "parse_fields fs =
     filter (\<lambda>nv. snd nv \<noteq> []) (map decode_field (filter (\<lambda>field. field \<noteq> []) fs))"
  by (induction fs) (auto simp: decode_field_def unquote_plus_Nil_iff split: prod.splits)

lemma parse_qsl_query_parameters:
  "parse_qsl q = filter (\<lambda>nv. snd nv \<noteq> []) (query_parameters q)"
proof -
  have qp: "query_parameters q = map decode_field (filter (\<lambda>field. field \<noteq> []) (py_split CHR ''&'' q))"
    by (simp add: query_parameters_def)
  show ?thesis
  proof (cases "q = []")
    case True
    then show ?thesis by (simp add: parse_qsl_def query_parameters_def)
  next
    case False
    then show ?thesis by (simp add: parse_qsl_def parse_fields_filter qp)
  qed
qed

lemma collect_pairs_lookup:
  "collect_pairs ps d k =
     (case map snd (filter (\<lambda>nv. fst nv = k) ps) of
        [] \<Rightarrow> d k
      | v # vs \<Rightarrow> Some ((case d k of None \<Rightarrow> [] | Some ws \<Rightarrow> ws) @ v # vs))"
proof (induction ps arbitrary: d)
  case Nil
  show ?case by simp
next
  case (Cons p ps)
  obtain n v where p: "p = (n, v)" by (cases p)
  show ?case
    unfolding p by (simp add: Cons.IH split: option.splits list.splits)
qed

lemma parse_qs_lookup:
  "parse_qs q k =
     (case filter (\<lambda>v. v \<noteq> []) (occurrences k q) of [] \<Rightarrow> None | v # vs \<Rightarrow> Some (v # vs))"
proof -
  have "map snd (filter (\<lambda>nv. fst nv = k) (filter (\<lambda>nv. snd nv \<noteq> []) (query_parameters q)))
          = filter (\<lambda>v. v \<noteq> []) (occurrences k q)"
    by (simp add: occurrences_def filter_map comp_def conj_commute)
  then show ?thesis
    by (simp add: parse_qs_def collect_pairs_lookup parse_qsl_query_parameters
             split: list.splits)
qed

lemma resolve_youtube:
  assumes "urlparse L url = Inr p" and "py_in ''youtube.com'' (netloc p)"
  shows "resolve L url =
           (case filter (\<lambda>v. v \<noteq> []) (occurrences ''v'' (query p)) of
              [] \<Rightarrow> Inl (ValueError ''Invalid YouTube URL'')
            | v # vs \<Rightarrow> Inr v)"
proof (cases "filter (\<lambda>v. v \<noteq> []) (occurrences ''v'' (query p))")
  case Nil
  then show ?thesis
    using assms by (simp add: resolve_def parse_qs_lookup index_first_def)
next
  case (Cons v vs)
  then have "v \<in> set (filter (\<lambda>v. v \<noteq> []) (occurrences ''v'' (query p)))" by simp
  then have "v \<noteq> []" by simp
  then show ?thesis
    using assms Cons by (simp add: resolve_def parse_qs_lookup index_first_def)
qed

lemma resolve_other_host:
  assumes "urlparse L url = Inr p" and "\<not> py_in ''youtube.com'' (netloc p)"
  shows "resolve L url =
           (if final_segment (path p) = [] then Inl (ValueError ''Invalid YouTube URL'')
            else Inr (final_segment (path p)))"
  using assms
  by (simp add: resolve_def index_last_def py_split_not_Nil last_map last_py_split
           del: py_split.simps)

lemma final_segment_Nil_iff: "final_segment s = [] \<longleftrightarrow> s = [] \<or> last s = CHR ''/''"
  by (cases s rule: rev_cases) (auto simp: final_segment_def)

lemma find_first_filter:
  "find P xs = (case filter P xs of [] \<Rightarrow> None | x # later \<Rightarrow> Some x)"
  by (induction xs) auto

lemma str_nat_429: "str_nat 429 = ''429''"
  by code_simp

lemma str_nat_415: "str_nat 415 = ''415''"
  by code_simp

lemma add_security_headers_headers:
  "headers (add_security_headers r) ''X-Content-Type-Options'' = Some ''nosniff''"
  "headers (add_security_headers r) ''X-Frame-Options'' = Some ''DENY''"
  "headers (add_security_headers r) ''X-XSS-Protection'' = Some ''1; mode=block''"
  "headers (add_security_headers r) ''Strict-Transport-Security''
     = Some ''max-age=31536000; includeSubDomains''"
  by (simp_all add: add_security_headers_def)

lemma add_security_headers_keeps:
  "status (add_security_headers r) = status r" "body (add_security_headers r) = body r"
  by (simp_all add: add_security_headers_def)

lemma serve_adds_headers: "\<exists>r. fst (serve L req) = add_security_headers r"
  unfolding serve_def by (auto split: prod.split)

section \<open>The two URL forms\<close>

text \<open>The components of \<^verbatim>\<open>https://www.youtube.com/watch?v=<ID>\<close>, alone or followed by
  \<^verbatim>\<open>&...\<close> or \<^verbatim>\<open>#...\<close>, and of \<^verbatim>\<open>https://youtu.be/<ID>\<close>, for an identifier made of
  identifier characters; on both forms the resolver returns the identifier.\<close>

lemma id_char_not_special:
  assumes "id_char c"
  shows "c \<noteq> CHR 0x09" "c \<noteq> CHR 0x0A" "c \<noteq> CHR 0x0D" "c \<noteq> CHR ''#''" "c \<noteq> CHR ''?''"
    "c \<noteq> CHR ''/''" "c \<noteq> CHR ''&''" "c \<noteq> CHR ''=''" "c \<noteq> CHR ''%''" "c \<noteq> CHR ''+''"
    "c \<noteq> CHR '';''"
  using assms
  by (auto simp: id_char_def is_lower_def is_upper_def is_digit_def code_def)

lemma plain_no_special:
  assumes "list_all id_char ID" and "\<not> id_char c"
  shows "c \<notin> set ID"
  using assms by (auto simp: list_all_iff)

lemma not_id_char:
  "\<not> id_char (CHR 0x09)" "\<not> id_char (CHR 0x0A)" "\<not> id_char (CHR 0x0D)" "\<not> id_char CHR ''#''"
  "\<not> id_char CHR ''?''" "\<not> id_char CHR ''/''" "\<not> id_char CHR ''&''" "\<not> id_char CHR ''=''"
  "\<not> id_char CHR ''%''" "\<not> id_char CHR ''+''" "\<not> id_char CHR '';''"
  by (simp_all add: id_char_def is_lower_def is_upper_def is_digit_def code_def)

lemma remove_char_plain: "c \<notin> set s \<Longrightarrow> remove_char c s = s"
  by (auto simp: remove_char_def filter_id_conv)

lemma remove_char_append: "remove_char c (a @ b) = remove_char c a @ remove_char c b"
  by (simp add: remove_char_def)

lemma remove_unsafe_append: "remove_unsafe (a @ b) = remove_unsafe a @ remove_unsafe b"
  by (simp add: remove_unsafe_def remove_char_append)

lemma remove_unsafe_plain: "list_all id_char ID \<Longrightarrow> remove_unsafe ID = ID"
  by (simp add: remove_unsafe_def remove_char_plain plain_no_special not_id_char)

lemma cut_at:
  "(if c \<in> set u then (case partition_at c u of (b, f, a) \<Rightarrow> (b, a)) else (u, []))
     = (takeWhile (\<lambda>x. x \<noteq> c) u, drop 1 (dropWhile (\<lambda>x. x \<noteq> c) u))"
proof (cases "c \<in> set u")
  case True
  then show ?thesis by (simp add: partition_at_def)
next
  case False
  then have all: "\<forall>x\<in>set u. x \<noteq> c" by auto
  then have tw: "takeWhile (\<lambda>x. x \<noteq> c) u = u" by (simp add: takeWhile_eq_all_conv)
  from all have dw: "dropWhile (\<lambda>x. x \<noteq> c) u = []" by simp
  show ?thesis unfolding tw dw using False by simp
qed

lemma split_tail_components:
  "split_tail L sch nl url =
     (case checknetloc L nl of
        Some e \<Rightarrow> Inl e
      | None \<Rightarrow>
          Inr \<lparr>scheme = sch, netloc = nl,
               path = takeWhile (\<lambda>x. x \<noteq> CHR ''?'') (takeWhile (\<lambda>x. x \<noteq> CHR ''#'') url),
               query = drop 1 (dropWhile (\<lambda>x. x \<noteq> CHR ''?'') (takeWhile (\<lambda>x. x \<noteq> CHR ''#'') url)),
               fragment = drop 1 (dropWhile (\<lambda>x. x \<noteq> CHR ''#'') url)\<rparr>)"
  unfolding split_tail_def cut_at by (simp add: Let_def split: option.split)

lemma py_split_prefix: "sep \<notin> set a \<Longrightarrow> py_split sep (a @ sep # b) = a # py_split sep b"
  by (induction a) auto


lemma urlsplit_plain_netloc:
  assumes "split_scheme (remove_unsafe (lstrip_c0 url0)) = (sch, u)" and "take 2 u = ''//''"
    and "splitnetloc u = (nl, rest)" and "CHR ''['' \<notin> set nl" and "CHR '']'' \<notin> set nl"
  shows "urlsplit L url0 = split_tail L sch nl rest"
  using assms by (simp add: urlsplit_def Let_def)

lemma watch_url_parses:
  assumes "list_all id_char ID"
  shows "urlparse L (''https://www.youtube.com/watch?v='' @ ID @ rest) =
           Inr \<lparr>scheme = ''https'', netloc = ''www.youtube.com'', path = ''/watch'',
                query = ''v='' @ ID @ takeWhile (\<lambda>x. x \<noteq> CHR ''#'') (remove_unsafe rest),
                fragment = drop 1 (dropWhile (\<lambda>x. x \<noteq> CHR ''#'') (remove_unsafe rest)),
                params = []\<rparr>"
proof -
  let ?r = "remove_unsafe rest"
  have clean: "remove_unsafe (lstrip_c0 (''https://www.youtube.com/watch?v='' @ ID @ rest))
                 = ''https://www.youtube.com/watch?v='' @ ID @ ?r"
  proof -
    have "lstrip_c0 (''https://www.youtube.com/watch?v='' @ ID @ rest)
            = ''https://www.youtube.com/watch?v='' @ (ID @ rest)"
      by (simp add: lstrip_c0_def code_def)
    moreover have "remove_unsafe ''https://www.youtube.com/watch?v=''
                     = ''https://www.youtube.com/watch?v=''"
      by (simp add: remove_unsafe_def remove_char_def)
    ultimately show ?thesis
      using assms by (simp only: remove_unsafe_append remove_unsafe_plain)
  qed
  have sch: "split_scheme (''https://www.youtube.com/watch?v='' @ ID @ ?r)
               = (''https'', ''//www.youtube.com/watch?v='' @ ID @ ?r)"
    by (simp add: split_scheme_def partition_at_def isascii_def ascii_alpha_def scheme_chars_def
                  is_lower_def is_upper_def is_digit_def lower_def code_def)
  have nl: "splitnetloc (''//www.youtube.com/watch?v='' @ ID @ ?r)
              = (''www.youtube.com'', ''/watch?v='' @ ID @ ?r)"
    by (simp add: splitnetloc_def netloc_delim_def)
  have hash: "CHR ''#'' \<notin> set ID" and ques: "CHR ''?'' \<notin> set ID"
    using assms by (simp_all add: plain_no_special not_id_char)
  have tw: "takeWhile (\<lambda>x. x \<noteq> CHR ''#'') (''/watch?v='' @ ID @ ?r)
              = ''/watch?v='' @ ID @ takeWhile (\<lambda>x. x \<noteq> CHR ''#'') ?r"
  proof -
    from hash have "\<And>x. x \<in> set ID \<Longrightarrow> x \<noteq> CHR ''#''" by auto
    then have "takeWhile (\<lambda>x. x \<noteq> CHR ''#'') (ID @ ?r) = ID @ takeWhile (\<lambda>x. x \<noteq> CHR ''#'') ?r"
      by (rule takeWhile_append2)
    then show ?thesis by simp
  qed
  have dw: "dropWhile (\<lambda>x. x \<noteq> CHR ''#'') (''/watch?v='' @ ID @ ?r)
              = dropWhile (\<lambda>x. x \<noteq> CHR ''#'') ?r"
  proof -
    from hash have "\<And>x. x \<in> set ID \<Longrightarrow> x \<noteq> CHR ''#''" by auto
    then have "dropWhile (\<lambda>x. x \<noteq> CHR ''#'') (ID @ ?r) = dropWhile (\<lambda>x. x \<noteq> CHR ''#'') ?r"
      by (rule dropWhile_append2)
    then show ?thesis by simp
  qed
  have chk: "checknetloc L ''www.youtube.com'' = None"
    by (simp add: checknetloc_def isascii_def)
  have tail: "split_tail L ''https'' ''www.youtube.com'' (''/watch?v='' @ ID @ ?r) =
                Inr \<lparr>scheme = ''https'', netloc = ''www.youtube.com'', path = ''/watch'',
                     query = ''v='' @ ID @ takeWhile (\<lambda>x. x \<noteq> CHR ''#'') ?r,
                     fragment = drop 1 (dropWhile (\<lambda>x. x \<noteq> CHR ''#'') ?r)\<rparr>"
    unfolding split_tail_components tw dw chk by simp
  have split: "urlsplit L (''https://www.youtube.com/watch?v='' @ ID @ rest) =
                Inr \<lparr>scheme = ''https'', netloc = ''www.youtube.com'', path = ''/watch'',
                     query = ''v='' @ ID @ takeWhile (\<lambda>x. x \<noteq> CHR ''#'') ?r,
                     fragment = drop 1 (dropWhile (\<lambda>x. x \<noteq> CHR ''#'') ?r)\<rparr>"
  proof -
    have "urlsplit L (''https://www.youtube.com/watch?v='' @ ID @ rest)
            = split_tail L ''https'' ''www.youtube.com'' (''/watch?v='' @ ID @ ?r)"
    proof (rule urlsplit_plain_netloc)
      show "split_scheme (remove_unsafe (lstrip_c0 (''https://www.youtube.com/watch?v='' @ ID @ rest)))
              = (''https'', ''//www.youtube.com/watch?v='' @ ID @ ?r)"
        unfolding clean by (rule sch)
      show "take 2 (''//www.youtube.com/watch?v='' @ ID @ ?r) = ''//''" by simp
      show "splitnetloc (''//www.youtube.com/watch?v='' @ ID @ ?r)
              = (''www.youtube.com'', ''/watch?v='' @ ID @ ?r)" by (rule nl)
      show "CHR ''['' \<notin> set ''www.youtube.com''" by simp
      show "CHR '']'' \<notin> set ''www.youtube.com''" by simp
    qed
    then show ?thesis unfolding tail .
  qed
  show ?thesis
    unfolding urlparse_def split by (simp add: uses_params_def)
qed


lemma watch_url_resolves:
  assumes "list_all id_char ID" and "ID \<noteq> []"
    and "rest = [] \<or> hd rest = CHR ''&'' \<or> hd rest = CHR ''#''"
  shows "resolve L (''https://www.youtube.com/watch?v='' @ ID @ rest) = Inr ID"
proof -
  let ?q = "takeWhile (\<lambda>x. x \<noteq> CHR ''#'') (remove_unsafe rest)"
  let ?p = "\<lparr>scheme = ''https'', netloc = ''www.youtube.com'', path = ''/watch'',
             query = ''v='' @ ID @ ?q,
             fragment = drop 1 (dropWhile (\<lambda>x. x \<noteq> CHR ''#'') (remove_unsafe rest)),
             params = []\<rparr>"
  have parsed: "urlparse L (''https://www.youtube.com/watch?v='' @ ID @ rest) = Inr ?p"
    using assms(1) by (rule watch_url_parses)
  have host: "py_in ''youtube.com'' (netloc ?p)" by simp
  have amp: "CHR ''&'' \<notin> set (''v='' @ ID)" and eq: "CHR ''='' \<notin> set ID"
    and pct: "CHR ''%'' \<notin> set ID" and plus: "CHR ''+'' \<notin> set ID"
    using assms(1) by (simp_all add: plain_no_special not_id_char)
  have q: "?q = [] \<or> (\<exists>q'. ?q = CHR ''&'' # q')"
  proof (cases rest)
    case Nil
    then show ?thesis by (simp add: remove_unsafe_def remove_char_def)
  next
    case (Cons c cs)
    with assms(3) have "c = CHR ''&'' \<or> c = CHR ''#''" by simp
    then show ?thesis
      using Cons by (auto simp: remove_unsafe_def remove_char_def)
  qed
  have field: "decode_field (''v='' @ ID) = (''v'', ID)"
    using pct plus by (simp add: decode_field_def partition_at_def unquote_plus_plain)
  have "\<exists>later. query_parameters (''v='' @ ID @ ?q) = (''v'', ID) # later"
  proof -
    from q consider "?q = []" | q' where "?q = CHR ''&'' # q'" by blast
    then show ?thesis
    proof cases
      case 1
      have "py_split CHR ''&'' (''v='' @ ID) = [''v='' @ ID]"
        using amp by (rule py_split_single)
      then show ?thesis
        unfolding 1 query_parameters_def by (simp add: field [simplified])
    next
      case 2
      have "py_split CHR ''&'' ((''v='' @ ID) @ CHR ''&'' # q') = (''v='' @ ID) # py_split CHR ''&'' q'"
        using amp by (rule py_split_prefix)
      then show ?thesis
        unfolding 2 query_parameters_def by (simp add: field [simplified])
    qed
  qed
  then obtain later where "query_parameters (query ?p) = (''v'', ID) # later" by auto
  then have "\<exists>vs. filter (\<lambda>v. v \<noteq> []) (occurrences ''v'' (query ?p)) = ID # vs"
    using assms(2) by (simp add: occurrences_def)
  then show ?thesis
    using resolve_youtube [OF parsed host] by auto
qed

lemma short_url_parses:
  assumes "list_all id_char ID"
  shows "urlparse L (''https://youtu.be/'' @ ID) =
           Inr \<lparr>scheme = ''https'', netloc = ''youtu.be'', path = ''/'' @ ID,
                query = [], fragment = [], params = []\<rparr>"
proof -
  have clean: "remove_unsafe (lstrip_c0 (''https://youtu.be/'' @ ID)) = ''https://youtu.be/'' @ ID"
  proof -
    have "lstrip_c0 (''https://youtu.be/'' @ ID) = ''https://youtu.be/'' @ ID"
      by (simp add: lstrip_c0_def code_def)
    moreover have "remove_unsafe ''https://youtu.be/'' = ''https://youtu.be/''"
      by (simp add: remove_unsafe_def remove_char_def)
    ultimately show ?thesis
      using assms by (simp only: remove_unsafe_append remove_unsafe_plain)
  qed
  have sch: "split_scheme (''https://youtu.be/'' @ ID) = (''https'', ''//youtu.be/'' @ ID)"
    by (simp add: split_scheme_def partition_at_def isascii_def ascii_alpha_def scheme_chars_def
                  is_lower_def is_upper_def is_digit_def lower_def code_def)
  have nl: "splitnetloc (''//youtu.be/'' @ ID) = (''youtu.be'', ''/'' @ ID)"
    by (simp add: splitnetloc_def netloc_delim_def)
  have hash: "\<And>x. x \<in> set (''/'' @ ID) \<Longrightarrow> x \<noteq> CHR ''#''"
    and ques: "\<And>x. x \<in> set (''/'' @ ID) \<Longrightarrow> x \<noteq> CHR ''?''"
    and semi: "CHR '';'' \<notin> set (''/'' @ ID)"
    using assms by (auto simp: list_all_iff dest: id_char_not_special)
  have tw: "takeWhile (\<lambda>x. x \<noteq> CHR ''#'') (''/'' @ ID) = ''/'' @ ID"
    using hash by (simp add: takeWhile_eq_all_conv)
  have dw: "dropWhile (\<lambda>x. x \<noteq> CHR ''#'') (''/'' @ ID) = []"
    using hash by simp
  have tw2: "takeWhile (\<lambda>x. x \<noteq> CHR ''?'') (''/'' @ ID) = ''/'' @ ID"
    using ques by (simp add: takeWhile_eq_all_conv)
  have dw2: "dropWhile (\<lambda>x. x \<noteq> CHR ''?'') (''/'' @ ID) = []"
    using ques by simp
  have chk: "checknetloc L ''youtu.be'' = None"
    by (simp add: checknetloc_def isascii_def)
  have tail: "split_tail L ''https'' ''youtu.be'' (''/'' @ ID) =
                Inr \<lparr>scheme = ''https'', netloc = ''youtu.be'', path = ''/'' @ ID,
                     query = [], fragment = []\<rparr>"
    unfolding split_tail_components tw dw tw2 dw2 chk by simp
  have "urlsplit L (''https://youtu.be/'' @ ID) = split_tail L ''https'' ''youtu.be'' (''/'' @ ID)"
  proof (rule urlsplit_plain_netloc)
    show "split_scheme (remove_unsafe (lstrip_c0 (''https://youtu.be/'' @ ID)))
            = (''https'', ''//youtu.be/'' @ ID)"
      unfolding clean by (rule sch)
    show "take 2 (''//youtu.be/'' @ ID) = ''//''" by simp
    show "splitnetloc (''//youtu.be/'' @ ID) = (''youtu.be'', ''/'' @ ID)" by (rule nl)
    show "CHR ''['' \<notin> set ''youtu.be''" by simp
    show "CHR '']'' \<notin> set ''youtu.be''" by simp
  qed
  then have split: "urlsplit L (''https://youtu.be/'' @ ID) =
                Inr \<lparr>scheme = ''https'', netloc = ''youtu.be'', path = ''/'' @ ID,
                     query = [], fragment = []\<rparr>"
    unfolding tail .
  show ?thesis
    unfolding urlparse_def split using semi by simp
qed

lemma short_url_resolves:
  assumes "list_all id_char ID" and "ID \<noteq> []"
  shows "resolve L (''https://youtu.be/'' @ ID) = Inr ID"
proof -
  let ?p = "\<lparr>scheme = ''https'', netloc = ''youtu.be'', path = ''/'' @ ID,
             query = [], fragment = [], params = []\<rparr>"
  have parsed: "urlparse L (''https://youtu.be/'' @ ID) = Inr ?p"
    using assms(1) by (rule short_url_parses)
  have host: "\<not> py_in ''youtube.com'' (netloc ?p)" by simp
  have "CHR ''/'' \<notin> set ID"
    using assms(1) by (simp add: plain_no_special not_id_char)
  then have "final_segment (''/'' @ ID) = ID"
    by (simp add: final_segment_Cons)
  then show ?thesis
    using resolve_other_host [OF parsed host] assms(2) by simp
qed

section \<open>The transcript route\<close>

text \<open>When \<^verbatim>\<open>request.get_json()\<close> returns \<^verbatim>\<open>None\<close> or an object without the field \<^verbatim>\<open>url\<close>, the
  handler of \<^verbatim>\<open>POST /api/transcript\<close> answers with status 400 and the body
  \<^verbatim>\<open>{"error": "URL is required"}\<close>, and the transcript library is not called, whatever the
  libraries are.\<close>

lemma absent_url_is_400:
  assumes "data = JNull \<or> (\<exists>kvs. data = JObj kvs \<and> ''url'' \<notin> fst ` set kvs)"
  shows "status (fst (get_transcript L (Inr data))) = 400
         \<and> body (fst (get_transcript L (Inr data))) = Json (JObj [(''error'', JStr ''URL is required'')])
         \<and> snd (get_transcript L (Inr data)) = []"
proof -
  from assms consider "data = JNull" | kvs where "data = JObj kvs" "''url'' \<notin> fst ` set kvs"
    by blast
  then show ?thesis
  proof cases
    case 1
    then show ?thesis
      by (simp add: get_transcript_def with_status_def jsonify_def)
  next
    case 2
    then have "map_of kvs ''url'' = None" by (simp add: map_of_eq_None_iff)
    with 2 show ?thesis
      by (simp add: get_transcript_def contains_key_def with_status_def jsonify_def)
  qed
qed

lemma absent_url_is_400_empty_object:
  "status (fst (get_transcript example_libs (Inr (JObj [])))) = 400
   \<and> body (fst (get_transcript example_libs (Inr (JObj [])))) = Json (JObj [(''error'', JStr ''URL is required'')])
   \<and> snd (get_transcript example_libs (Inr (JObj []))) = []"
  using absent_url_is_400 [of "JObj []" example_libs] by simp

text \<open>Claim C1. The claim holds in the cases above and fails for a request whose body is
  missing: \<^verbatim>\<open>request.get_json()\<close> then raises inside the \<^verbatim>\<open>try\<close> block, the test of line 96
  is not reached, and the \<^verbatim>\<open>except\<close> clause answers with status 500 and the message of the
  exception, not with 400 and \<^verbatim>\<open>URL is required\<close>. A body that is not an object and lacks
  the field, such as \<^verbatim>\<open>5\<close>, gives 500 as well: \<^verbatim>\<open>'url' not in data\<close> raises a
  \<^verbatim>\<open>TypeError\<close>. The transcript library is not called.\<close>

theorem missing_body_is_500:
  "status (fst (get_transcript L (Inl e))) = 500
   \<and> status (fst (get_transcript L (Inl e))) \<noteq> 400
   \<and> body (fst (get_transcript L (Inl e))) = Json (JObj [(''error'', JStr (str_error e))])
   \<and> snd (get_transcript L (Inl e)) = []
   \<and> status (fst (get_transcript L (Inr (JInt 5)))) = 500
   \<and> body (fst (get_transcript L (Inr (JInt 5))))
       = Json (JObj [(''error'', JStr (''argument of type '' @ squote ''int'' @ '' is not iterable''))])
   \<and> snd (get_transcript L (Inr (JInt 5))) = []"
  by (simp add: get_transcript_def contains_key_def error_500_def with_status_def jsonify_def)

theorem missing_body_is_500_witness:
  "status (fst (get_transcript example_libs (Inl UnsupportedMediaType))) = 500
   \<and> body (fst (get_transcript example_libs (Inl UnsupportedMediaType)))
       = Json (JObj [(''error'',
            JStr (''415 Unsupported Media Type: Did not attempt to load JSON data because ''
                  @ ''the request Content-Type was not '' @ squote ''application/json'' @ ''.''))])
   \<and> snd (get_transcript example_libs (Inl UnsupportedMediaType)) = []"
  using missing_body_is_500 [of example_libs UnsupportedMediaType]
  by (simp add: UnsupportedMediaType_def str_nat_415)

text \<open>Claim C2. When the body has a \<^verbatim>\<open>url\<close> on which the resolver fails with the exception
  \<open>e\<close>, the handler answers with status 500, not 400, and the body
  \<^verbatim>\<open>{"error": str(e)}\<close>; the transcript library is not called.\<close>

theorem resolver_failure_is_500:
  assumes "map_of kvs ''url'' = Some url" and "resolve_value L url = Inl e"
  shows "status (fst (get_transcript L (Inr (JObj kvs)))) = 500
         \<and> status (fst (get_transcript L (Inr (JObj kvs)))) \<noteq> 400
         \<and> body (fst (get_transcript L (Inr (JObj kvs)))) = Json (JObj [(''error'', JStr (str_error e))])
         \<and> snd (get_transcript L (Inr (JObj kvs))) = []"
proof -
  from assms(1) have "kvs \<noteq> []" by auto
  with assms show ?thesis
    by (simp add: get_transcript_def contains_key_def getitem_def get_video_transcript_def
                  error_500_def with_status_def jsonify_def)
qed

theorem resolver_failure_is_500_witness:
  "map_of [(''url'', JStr ''https://youtu.be/'')] ''url'' = Some (JStr ''https://youtu.be/'')
   \<and> resolve_value example_libs (JStr ''https://youtu.be/'') = Inl (ValueError ''Invalid YouTube URL'')
   \<and> status (fst (get_transcript example_libs (Inr (JObj [(''url'', JStr ''https://youtu.be/'')])))) = 500
   \<and> body (fst (get_transcript example_libs (Inr (JObj [(''url'', JStr ''https://youtu.be/'')]))))
       = Json (JObj [(''error'', JStr ''Invalid YouTube URL'')])"
proof -
  have h1: "map_of [(''url'', JStr ''https://youtu.be/'')] ''url'' = Some (JStr ''https://youtu.be/'')"
    by simp
  have "resolve example_libs ''https://youtu.be/'' = Inl (ValueError ''Invalid YouTube URL'')"
    by code_simp
  then have h2: "resolve_value example_libs (JStr ''https://youtu.be/'')
                   = Inl (ValueError ''Invalid YouTube URL'')"
    by (simp add: resolve_value_def)
  show ?thesis
    using h1 h2 resolver_failure_is_500 [OF h1 h2] by simp
qed

text \<open>Claim C8, as amended. The string \<^verbatim>\<open>not a url\<close> has no host, and its last path segment is
  the whole string: the resolver does not fail, it returns \<^verbatim>\<open>not a url\<close> as the video
  identifier, and the handler passes it to the transcript library. The handler returns
  status 500 with the library's message in the field \<^verbatim>\<open>error\<close> when the library fails, and
  status 200 with the transcript when it does not.\<close>

theorem not_a_url_reaches_library:
  "resolve L ''not a url'' = Inr ''not a url''
   \<and> snd (get_transcript L (Inr (JObj [(''url'', JStr ''not a url'')]))) = [''not a url'']
   \<and> (youtube_get_transcript L ''not a url'' = Inl e \<longrightarrow>
        status (fst (get_transcript L (Inr (JObj [(''url'', JStr ''not a url'')])))) = 500
        \<and> body (fst (get_transcript L (Inr (JObj [(''url'', JStr ''not a url'')]))))
            = Json (JObj [(''error'', JStr (str_error e))]))
   \<and> (youtube_get_transcript L ''not a url'' = Inr transcript \<longrightarrow>
        status (fst (get_transcript L (Inr (JObj [(''url'', JStr ''not a url'')])))) = 200
        \<and> body (fst (get_transcript L (Inr (JObj [(''url'', JStr ''not a url'')]))))
            = Json (JObj [(''transcript'', transcript)]))"
proof -
  have r: "resolve L ''not a url'' = Inr ''not a url''" by code_simp
  have g: "get_transcript L (Inr (JObj [(''url'', JStr ''not a url'')])) =
             (case youtube_get_transcript L ''not a url'' of
                Inl e \<Rightarrow> error_500 e
              | Inr transcript \<Rightarrow> jsonify (JObj [(''transcript'', transcript)]),
              [''not a url''])"
    by (simp add: get_transcript_def contains_key_def getitem_def get_video_transcript_def
                  resolve_value_def r
             split: sum.splits)
  show ?thesis
    unfolding g using r by (simp add: error_500_def with_status_def jsonify_def)
qed

theorem not_a_url_reaches_library_witness:
  "youtube_get_transcript example_libs ''not a url''
     = Inl (FetchError ''Could not retrieve a transcript for not a url'')
   \<and> status (fst (get_transcript example_libs (Inr (JObj [(''url'', JStr ''not a url'')])))) = 500
   \<and> body (fst (get_transcript example_libs (Inr (JObj [(''url'', JStr ''not a url'')]))))
       = Json (JObj [(''error'', JStr ''Could not retrieve a transcript for not a url'')])
   \<and> snd (get_transcript example_libs (Inr (JObj [(''url'', JStr ''not a url'')]))) = [''not a url'']"
proof -
  have h: "youtube_get_transcript example_libs ''not a url''
     = Inl (FetchError ''Could not retrieve a transcript for not a url'')"
    by (simp add: example_libs_def transcripts_disabled_def)
  show ?thesis
    using not_a_url_reaches_library
            [of example_libs "FetchError ''Could not retrieve a transcript for not a url''"] h
    by simp
qed

text \<open>The claim as it was stated fails: on \<^verbatim>\<open>not a url\<close> the resolver returns an identifier,
  and the transcript library is called with it.\<close>

theorem not_a_url_counterexample:
  "resolve example_libs ''not a url'' = Inr ''not a url''
   \<and> resolve example_libs ''not a url'' \<noteq> Inl (ValueError ''Invalid YouTube URL'')
   \<and> snd (get_transcript example_libs (Inr (JObj [(''url'', JStr ''not a url'')])))
       = [''not a url'']"
proof -
  have a: "resolve example_libs ''not a url'' = Inr ''not a url''" by code_simp
  then have b: "resolve example_libs ''not a url'' \<noteq> Inl (ValueError ''Invalid YouTube URL'')"
    by simp
  have c: "snd (get_transcript example_libs (Inr (JObj [(''url'', JStr ''not a url'')])))
       = [''not a url'']"
    by (simp add: get_transcript_def contains_key_def getitem_def get_video_transcript_def
                  resolve_value_def a
             split: sum.splits)
  from a b c show ?thesis by blast
qed

text \<open>Claim C4, as amended. \<^verbatim>\<open>get_video_transcript\<close> logs an exception and raises it again
  unchanged. For every string on which \<^verbatim>\<open>urlparse\<close> raises, the resolver fails with the
  parser's own exception; the transcript library is not called, and the handler reports
  the failure like any other, with status 500 and the message of the exception.\<close>

theorem parser_error_is_reraised:
  assumes "urlparse L url = Inl e"
  shows "resolve L url = Inl e
         \<and> get_video_transcript L (JStr url) = (Inl e, [])
         \<and> get_transcript L (Inr (JObj [(''url'', JStr url)])) = (error_500 e, [])"
  using assms
  by (simp add: resolve_def resolve_value_def get_video_transcript_def get_transcript_def
                contains_key_def getitem_def)

theorem parser_error_is_reraised_witness:
  "urlparse example_libs ''http://[::1'' = Inl (ValueError ''Invalid IPv6 URL'')
   \<and> resolve example_libs ''http://[::1'' = Inl (ValueError ''Invalid IPv6 URL'')
   \<and> get_transcript example_libs (Inr (JObj [(''url'', JStr ''http://[::1'')]))
       = (error_500 (ValueError ''Invalid IPv6 URL''), [])"
proof -
  have h: "urlparse example_libs ''http://[::1'' = Inl (ValueError ''Invalid IPv6 URL'')"
    by code_simp
  show ?thesis
    using parser_error_is_reraised [OF h] h by simp
qed

text \<open>The claim as it was stated fails on \<^verbatim>\<open>http://[\<close>: the parser raises
  \<^verbatim>\<open>ValueError('Invalid IPv6 URL')\<close>, and that exception, not the resolver's
  \<^verbatim>\<open>ValueError('Invalid YouTube URL')\<close>, reaches the caller.\<close>

theorem parser_error_counterexample:
  "urlparse example_libs ''http://['' = Inl (ValueError ''Invalid IPv6 URL'')
   \<and> get_video_transcript example_libs (JStr ''http://['')
        = (Inl (ValueError ''Invalid IPv6 URL''), [])
   \<and> get_video_transcript example_libs (JStr ''http://['')
        \<noteq> (Inl (ValueError ''Invalid YouTube URL''), [])"
proof -
  have a: "urlparse example_libs ''http://['' = Inl (ValueError ''Invalid IPv6 URL'')"
    by code_simp
  then have b: "get_video_transcript example_libs (JStr ''http://['')
        = (Inl (ValueError ''Invalid IPv6 URL''), [])"
    by (simp add: get_video_transcript_def resolve_value_def resolve_def)
  then have c: "get_video_transcript example_libs (JStr ''http://['')
        \<noteq> (Inl (ValueError ''Invalid YouTube URL''), [])"
    by simp
  from a b c show ?thesis by blast
qed

section \<open>The resolver\<close>

text \<open>Claim C5. Host, path and query string are the components \<open>netloc\<close>, \<open>path\<close> and
  \<open>query\<close> that \<^verbatim>\<open>urlparse\<close> gives. When the host contains \<^verbatim>\<open>youtube.com\<close> and the parameter
  \<^verbatim>\<open>v\<close> of the query string has the non-empty value \<open>ID\<close> (at each of its occurrences, and
  there is one), the resolver returns exactly \<open>ID\<close>. Repeated parameters with different
  values are the matter of claim C10.\<close>

theorem youtube_v_parameter:
  assumes "urlparse L url = Inr p" and "py_in ''youtube.com'' (netloc p)"
    and "set (occurrences ''v'' (query p)) = {ID}" and "ID \<noteq> []"
  shows "resolve L url = Inr ID"
proof -
  from assms(3) obtain v vs where vs: "occurrences ''v'' (query p) = v # vs"
    by (cases "occurrences ''v'' (query p)") auto
  from assms(3) have "v \<in> {ID}" unfolding vs by (metis list.set_intros(1))
  then have "v = ID" by simp
  with vs assms(4) show ?thesis
    using resolve_youtube [OF assms(1,2)] by simp
qed

theorem youtube_v_parameter_witness:
  "py_in ''youtube.com'' ''www.youtube.com''
   \<and> occurrences ''v'' ''v=dQw4w9WgXcQ&t=42s'' = [''dQw4w9WgXcQ'']
   \<and> resolve example_libs ''https://www.youtube.com/watch?v=dQw4w9WgXcQ&t=42s'' = Inr ''dQw4w9WgXcQ''"
proof -
  let ?p = "\<lparr>scheme = ''https'', netloc = ''www.youtube.com'', path = ''/watch'',
             query = ''v=dQw4w9WgXcQ&t=42s'', fragment = [], params = []\<rparr>"
  have h1: "urlparse example_libs ''https://www.youtube.com/watch?v=dQw4w9WgXcQ&t=42s'' = Inr ?p"
    by code_simp
  have yt: "py_in ''youtube.com'' ''www.youtube.com''" by simp
  then have h2: "py_in ''youtube.com'' (netloc ?p)" by simp
  have occ: "occurrences ''v'' ''v=dQw4w9WgXcQ&t=42s'' = [''dQw4w9WgXcQ'']" by code_simp
  then have h3: "set (occurrences ''v'' (query ?p)) = {''dQw4w9WgXcQ''}" by simp
  have h4: "''dQw4w9WgXcQ'' \<noteq> []" by simp
  have "resolve example_libs ''https://www.youtube.com/watch?v=dQw4w9WgXcQ&t=42s'' = Inr ''dQw4w9WgXcQ''"
    by (rule youtube_v_parameter [OF h1 h2 h3 h4])
  with yt occ show ?thesis by blast
qed






text \<open>Claim C10, as amended. \<^verbatim>\<open>parse_qs\<close> drops the occurrences of \<^verbatim>\<open>v\<close> whose value is empty
  before the code takes the first value. When the host contains \<^verbatim>\<open>youtube.com\<close> and the
  query string carries \<^verbatim>\<open>v\<close> more than once, the resolver returns the value of the first
  occurrence of \<^verbatim>\<open>v\<close> whose value is not empty, whatever the other occurrences are, and fails
  when every occurrence is empty.\<close>

theorem first_nonempty_v:
  assumes "urlparse L url = Inr p" and "py_in ''youtube.com'' (netloc p)"
    and "1 < length (occurrences ''v'' (query p))"
  shows "resolve L url =
           (case find (\<lambda>x. x \<noteq> []) (occurrences ''v'' (query p)) of
              None \<Rightarrow> Inl (ValueError ''Invalid YouTube URL'')
            | Some x \<Rightarrow> Inr x)"
  using resolve_youtube [OF assms(1,2)]
  by (simp add: find_first_filter split: list.splits)

theorem first_nonempty_v_witness:
  "occurrences ''v'' ''v=first&v=second'' = [''first'', ''second'']
   \<and> resolve example_libs ''https://www.youtube.com/watch?v=first&v=second'' = Inr ''first''"
proof -
  let ?p = "\<lparr>scheme = ''https'', netloc = ''www.youtube.com'', path = ''/watch'',
             query = ''v=first&v=second'', fragment = [], params = []\<rparr>"
  have h1: "urlparse example_libs ''https://www.youtube.com/watch?v=first&v=second'' = Inr ?p"
    by code_simp
  have h2: "py_in ''youtube.com'' (netloc ?p)" by simp
  have occ: "occurrences ''v'' ''v=first&v=second'' = [''first'', ''second'']" by code_simp
  then have h3: "1 < length (occurrences ''v'' (query ?p))" by simp
  show ?thesis
    using first_nonempty_v [OF h1 h2 h3] occ by simp
qed

text \<open>The claim as it was stated fails on \<^verbatim>\<open>https://www.youtube.com/watch?v=&v=abc\<close>: the
  first occurrence of \<^verbatim>\<open>v\<close> has the empty value, and the resolver returns the value of the
  second one.\<close>

theorem first_v_counterexample:
  "urlparse example_libs ''https://www.youtube.com/watch?v=&v=abc'' =
     Inr \<lparr>scheme = ''https'', netloc = ''www.youtube.com'', path = ''/watch'',
          query = ''v=&v=abc'', fragment = [], params = []\<rparr>
   \<and> py_in ''youtube.com'' ''www.youtube.com''
   \<and> occurrences ''v'' ''v=&v=abc'' = [[], ''abc'']
   \<and> resolve example_libs ''https://www.youtube.com/watch?v=&v=abc'' = Inr ''abc''
   \<and> resolve example_libs ''https://www.youtube.com/watch?v=&v=abc''
        \<noteq> Inr (hd (occurrences ''v'' ''v=&v=abc''))"
proof -
  have a: "urlparse example_libs ''https://www.youtube.com/watch?v=&v=abc'' =
     Inr \<lparr>scheme = ''https'', netloc = ''www.youtube.com'', path = ''/watch'',
          query = ''v=&v=abc'', fragment = [], params = []\<rparr>"
    by code_simp
  have b: "py_in ''youtube.com'' ''www.youtube.com''" by simp
  have c: "occurrences ''v'' ''v=&v=abc'' = [[], ''abc'']" by code_simp
  have d: "resolve example_libs ''https://www.youtube.com/watch?v=&v=abc'' = Inr ''abc''"
    by code_simp
  from c d have e: "resolve example_libs ''https://www.youtube.com/watch?v=&v=abc''
        \<noteq> Inr (hd (occurrences ''v'' ''v=&v=abc''))" by simp
  from a b c d e show ?thesis by blast
qed

section \<open>Every response\<close>

text \<open>Claim C9. Every response of the server, from a view or from the error handler and
  whatever its status, carries the four security headers with these values.\<close>

theorem security_headers_on_every_response:
  "headers (fst (serve L req)) ''X-Content-Type-Options'' = Some ''nosniff''
   \<and> headers (fst (serve L req)) ''X-Frame-Options'' = Some ''DENY''
   \<and> headers (fst (serve L req)) ''X-XSS-Protection'' = Some ''1; mode=block''
   \<and> headers (fst (serve L req)) ''Strict-Transport-Security''
       = Some ''max-age=31536000; includeSubDomains''"
proof -
  obtain r where "fst (serve L req) = add_security_headers r"
    using serve_adds_headers by blast
  then show ?thesis
    by (simp add: add_security_headers_headers)
qed

theorem security_headers_on_every_response_witness:
  "status (fst (serve example_libs
      \<lparr>matched = Routing_error (HTTPException 404 ''Not Found'' ''The requested URL was not found''),
        limit_breached = None, get_json = Inr JNull, time_now = 0, environment = None\<rparr>)) = 500
   \<and> headers (fst (serve example_libs
      \<lparr>matched = Routing_error (HTTPException 404 ''Not Found'' ''The requested URL was not found''),
        limit_breached = None, get_json = Inr JNull, time_now = 0, environment = None\<rparr>))
        ''X-Frame-Options'' = Some ''DENY''"
proof -
  let ?req = "\<lparr>matched = Routing_error (HTTPException 404 ''Not Found'' ''The requested URL was not found''),
        limit_breached = None, get_json = Inr JNull, time_now = 0, environment = None\<rparr>"
  have s: "status (fst (serve example_libs ?req)) = 500"
    by (simp add: serve_def handle_error_def with_status_def jsonify_def
                  add_security_headers_def)
  show ?thesis
    using security_headers_on_every_response [of example_libs ?req] s by blast
qed

text \<open>Claim C3. When the limiter rejects a request to \<^verbatim>\<open>/\<close>, as it does for the eleventh
  request of a client within one minute, the exception it raises goes to \<open>handle_error\<close>:
  the response has status 500, not 429, and carries the text of the 429 error in its
  body.\<close>

theorem rate_limited_home_is_500:
  assumes "matched req = Matched Home" and "limit_breached req = Some d"
  shows "status (fst (serve L req)) = 500
         \<and> status (fst (serve L req)) \<noteq> 429
         \<and> body (fst (serve L req))
             = Json (JObj [(''error'', JStr (''429 Too Many Requests: '' @ d)),
                           (''status'', JStr ''error'')])"
  using assms
  by (simp add: serve_def handle_error_def with_status_def jsonify_def add_security_headers_def
                RateLimitExceeded_def str_nat_429)

theorem rate_limited_home_is_500_witness:
  "status (fst (serve example_libs
      \<lparr>matched = Matched Home, limit_breached = Some ''10 per 1 minute'', get_json = Inr JNull,
        time_now = 0, environment = None\<rparr>)) = 500
   \<and> body (fst (serve example_libs
      \<lparr>matched = Matched Home, limit_breached = Some ''10 per 1 minute'', get_json = Inr JNull,
        time_now = 0, environment = None\<rparr>))
       = Json (JObj [(''error'', JStr ''429 Too Many Requests: 10 per 1 minute''),
                     (''status'', JStr ''error'')])"
  using rate_limited_home_is_500
          [of "\<lparr>matched = Matched Home, limit_breached = Some ''10 per 1 minute'', get_json = Inr JNull,
                 time_now = 0, environment = None\<rparr>" "''10 per 1 minute''" example_libs]
  by simp

end
